theory Spec2Isabelle
  imports Complex_Main
begin

section \<open>Opti-Logistix dashboard: data model\<close>

text \<open>
  The dashboard (\<^verbatim>\<open>src/dashboard/js/app.js\<close>) keeps the road network as a list of edge
  objects in \<^verbatim>\<open>state.graphData.edges\<close>. An edge has two end points, a \<^verbatim>\<open>damage\<close>
  number and, when it came from the server, an \<^verbatim>\<open>id\<close>; the edges of the fallback demo grid
  have no \<^verbatim>\<open>id\<close>. JavaScript numbers are modelled as reals: rounding of IEEE doubles is
  outside the model.

  \<^verbatim>\<open>Math.random()\<close> is modelled by a stream of draws \<open>rng :: nat \<Rightarrow> real\<close> and a counter
  that every call advances by one: the \<open>k\<close>-th call returns \<open>rng k\<close>. The runtime promises
  \<open>0 \<le> rng k < 1\<close>; theorems that need it assume \<open>unit_draws rng\<close>.
\<close>

record coord =
  lat :: real
  lon :: real

text \<open>
  An \<^verbatim>\<open>id\<close> arrives in JSON and is a string or a number. It is truthy unless it is the
  empty string or the number 0, and as a property key a number stands for its string.
\<close>

datatype js_id = Id_str string | Id_num real

record edge =
  edge_id :: "js_id option"
  from_pt :: coord
  to_pt :: coord
  damage :: real

type_synonym rng = "nat \<Rightarrow> real"

definition unit_draws :: "rng \<Rightarrow> bool" where
  "unit_draws rng = (\<forall>k. 0 \<le> rng k \<and> rng k < 1)"

datatype toast_kind = Success | Error | Warning | Info

text \<open>
  The part of the page the scenario functions write: the edge list, the active scenario
  (the server's reply, of which only the magnitude is read), the identifiers of the
  damage-zone circles on the map, the two statistics counters, the status line, the
  number shown in the recommendation badge, and the kind of the last toast.
\<close>

record dashboard =
  graph_edges :: "edge list"
  currentScenario :: "real option"
  zones :: "string list"
  damagedRoads :: nat
  damagedBridges :: nat
  scenarioStatus :: string
  recommendationCount :: nat
  last_toast :: "toast_kind option"

subsection \<open>The fallback demo grid (\<^verbatim>\<open>loadDemoData\<close>)\<close>

text \<open>
  The body of the inner loop for one pair \<open>(i, j)\<close>: a horizontal edge towards
  \<open>j + 1\<close> when \<open>j < 4\<close>, then a vertical edge towards \<open>i + 1\<close> when \<open>i < 4\<close>.
\<close>

definition demo_cell :: "nat \<Rightarrow> nat \<Rightarrow> edge list" where
  "demo_cell i j =
     (let lat1 = 41.0 + real i * 0.01;
          lon1 = 29.0 + real j * 0.01
      in (if j < 4
          then [\<lparr>edge_id = None,
                 from_pt = \<lparr>lat = lat1, lon = lon1\<rparr>,
                 to_pt = \<lparr>lat = lat1, lon = lon1 + 0.01\<rparr>,
                 damage = 0\<rparr>]
          else []) @
         (if i < 4
          then [\<lparr>edge_id = None,
                 from_pt = \<lparr>lat = lat1, lon = lon1\<rparr>,
                 to_pt = \<lparr>lat = lat1 + 0.01, lon = lon1\<rparr>,
                 damage = 0\<rparr>]
          else []))"

text \<open>The two nested \<^verbatim>\<open>for\<close> loops, \<open>i\<close> outside and \<open>j\<close> inside, both from 0 to 4.\<close>

definition demoEdges :: "edge list" where
  "demoEdges = concat (map (\<lambda>i. concat (map (\<lambda>j. demo_cell i j) [0..<5])) [0..<5])"

definition loadDemoData :: "dashboard \<Rightarrow> dashboard" where
  "loadDemoData s = s\<lparr>graph_edges := demoEdges\<rparr>"

text \<open>
  The 5 by 5 grid, to compare the loops of \<^verbatim>\<open>loadDemoData\<close> with: node
  \<open>(i, j)\<close> lies at latitude 41.0 + 0.01 i and longitude 29.0 + 0.01 j; the edge to the east
  of a node ends 0.01 further in longitude, the edge to the north 0.01 further in latitude.
\<close>

definition grid_node :: "nat \<Rightarrow> nat \<Rightarrow> coord" where
  "grid_node i j = \<lparr>lat = 41.0 + real i * 0.01, lon = 29.0 + real j * 0.01\<rparr>"

definition east_edge :: "nat \<Rightarrow> nat \<Rightarrow> edge" where
  "east_edge i j = \<lparr>edge_id = None,
                     from_pt = grid_node i j,
                     to_pt = \<lparr>lat = lat (grid_node i j), lon = lon (grid_node i j) + 0.01\<rparr>,
                     damage = 0\<rparr>"

definition north_edge :: "nat \<Rightarrow> nat \<Rightarrow> edge" where
  "north_edge i j = \<lparr>edge_id = None,
                      from_pt = grid_node i j,
                      to_pt = \<lparr>lat = lat (grid_node i j) + 0.01, lon = lon (grid_node i j)\<rparr>,
                      damage = 0\<rparr>"

text \<open>An edge of the grid is horizontal when it keeps its latitude, vertical when it keeps
  its longitude.\<close>

definition horizontal :: "edge \<Rightarrow> bool" where
  "horizontal e = (lat (from_pt e) = lat (to_pt e) \<and> lon (from_pt e) \<noteq> lon (to_pt e))"

definition vertical :: "edge \<Rightarrow> bool" where
  "vertical e = (lon (from_pt e) = lon (to_pt e) \<and> lat (from_pt e) \<noteq> lat (to_pt e))"

subsection \<open>Clearing the scenario (\<^verbatim>\<open>clearScenario\<close>)\<close>

text \<open>
  The \<^verbatim>\<open>DELETE\<close> request is sent and its failure swallowed; nothing of its result is
  read. Then the scenario is dropped, the zone layer emptied, every edge's damage set to 0,
  and the counters and the status line reset.
\<close>

definition clearScenario :: "dashboard \<Rightarrow> dashboard" where
  "clearScenario s =
     s\<lparr>currentScenario := None,
       zones := [],
       graph_edges := map (\<lambda>e. e\<lparr>damage := 0\<rparr>) (graph_edges s),
       damagedRoads := 0,
       damagedBridges := 0,
       scenarioStatus := ''Senaryo: Normal'',
       recommendationCount := 0,
       last_toast := Some Success\<rparr>"

subsection \<open>Demo scenario and random damage (\<^verbatim>\<open>applyDemoScenario\<close>, \<^verbatim>\<open>applyRandomDamage\<close>)\<close>

definition damageRate :: "string \<Rightarrow> real" where
  "damageRate scenario =
     (if scenario = ''hafif'' then 0.15
      else if scenario = ''orta'' then 0.35 else 0.6)"

text \<open>
  The \<^verbatim>\<open>forEach\<close> of \<^verbatim>\<open>applyDemoScenario\<close>: \<open>k\<close> is the number of calls of
  \<^verbatim>\<open>Math.random()\<close> made so far, \<open>cnt\<close> is \<^verbatim>\<open>damagedCount\<close>. Either branch draws
  a second number for the score.
\<close>

fun demo_scenario_loop ::
  "real \<Rightarrow> rng \<Rightarrow> nat \<Rightarrow> nat \<Rightarrow> edge list \<Rightarrow> edge list \<times> nat \<times> nat" where
  "demo_scenario_loop rate rng k cnt [] = ([], k, cnt)"
| "demo_scenario_loop rate rng k cnt (e # es) =
     (if rng k < rate
      then (case demo_scenario_loop rate rng (k + 2) (cnt + 1) es of
              (es', k', cnt') \<Rightarrow> (e\<lparr>damage := rng (k + 1) * 0.5 + 0.3\<rparr> # es', k', cnt'))
      else (case demo_scenario_loop rate rng (k + 2) cnt es of
              (es', k', cnt') \<Rightarrow> (e\<lparr>damage := rng (k + 1) * 0.2\<rparr> # es', k', cnt')))"

text \<open>
  The whole function: the loop, the two counters (\<^verbatim>\<open>Math.floor(damagedCount / 10)\<close> is
  \<open>div\<close> on naturals), the two demo zones and the three demo recommendations. It returns
  the page and the advanced draw counter.
\<close>

definition applyDemoScenario :: "string \<Rightarrow> rng \<Rightarrow> nat \<Rightarrow> dashboard \<Rightarrow> dashboard \<times> nat" where
  "applyDemoScenario scenario rng k s =
     (case demo_scenario_loop (damageRate scenario) rng k 0 (graph_edges s) of
        (es', k', damagedCount) \<Rightarrow>
          (s\<lparr>graph_edges := es',
             damagedRoads := damagedCount,
             damagedBridges := damagedCount div 10,
             zones := [''Z0_CRITICAL'', ''Z1_SEVERE''],
             recommendationCount := 3\<rparr>, k'))"

fun random_damage_loop :: "rng \<Rightarrow> nat \<Rightarrow> edge list \<Rightarrow> edge list \<times> nat" where
  "random_damage_loop rng k [] = ([], k)"
| "random_damage_loop rng k (e # es) =
     (case random_damage_loop rng (k + 1) es of
        (es', k') \<Rightarrow> (e\<lparr>damage := rng k * 0.6\<rparr> # es', k'))"

definition applyRandomDamage :: "rng \<Rightarrow> nat \<Rightarrow> dashboard \<Rightarrow> dashboard \<times> nat" where
  "applyRandomDamage rng k s =
     (case random_damage_loop rng k (graph_edges s) of
        (es', k') \<Rightarrow> (s\<lparr>graph_edges := es'\<rparr>, k'))"

text \<open>
  A sequence of scenario selections while the server is unreachable: every selection ends
  in \<^verbatim>\<open>applyDemoScenario\<close>, and the draws continue where the previous one stopped.
\<close>

fun apply_scenarios :: "string list \<Rightarrow> rng \<Rightarrow> nat \<Rightarrow> dashboard \<Rightarrow> dashboard \<times> nat" where
  "apply_scenarios [] rng k s = (s, k)"
| "apply_scenarios (sc # scs) rng k s =
     (case applyDemoScenario sc rng k s of
        (s', k') \<Rightarrow> apply_scenarios scs rng k' s')"

text \<open>
  The fraction of edges whose damage is at least 0.3, for one run and averaged over a
  finite collection of random streams (the trials of a statistical check). The preset
  magnitudes are those of the roadmap's scenario table (S1 Hafif 5.5, S2 Orta 6.5,
  S3 Siddetli 7.2), whose damaged-road percentages are the three values of
  \<open>damageRate\<close>.
\<close>

definition scenario_magnitude :: "string \<Rightarrow> real option" where
  "scenario_magnitude scenario =
     (if scenario = ''hafif'' then Some 5.5
      else if scenario = ''orta'' then Some 6.5
      else if scenario = ''siddetli'' then Some 7.2 else None)"

definition damaged_count :: "edge list \<Rightarrow> nat" where
  "damaged_count es = length (filter (\<lambda>e. 0.3 \<le> damage e) es)"

definition damaged_fraction :: "edge list \<Rightarrow> real" where
  "damaged_fraction es = real (damaged_count es) / real (length es)"

definition scenario_fraction :: "string \<Rightarrow> dashboard \<Rightarrow> rng \<Rightarrow> real" where
  "scenario_fraction scenario s rng =
     damaged_fraction (graph_edges (fst (applyDemoScenario scenario rng 0 s)))"

definition mean_fraction :: "string \<Rightarrow> dashboard \<Rightarrow> rng list \<Rightarrow> real" where
  "mean_fraction scenario s seeds =
     sum_list (map (scenario_fraction scenario s) seeds) / real (length seeds)"

subsection \<open>The server's damage map (\<^verbatim>\<open>loadDamageMap\<close>)\<close>


text \<open>
  The conversion of a number to a string belongs to the language, not to the repository,
  and is the parameter \<open>num_str\<close> of everything that builds a property key.
\<close>

definition truthy_id :: "js_id \<Rightarrow> bool" where
  "truthy_id i = (case i of Id_str s \<Rightarrow> s \<noteq> [] | Id_num n \<Rightarrow> n \<noteq> 0)"

definition id_key :: "(real \<Rightarrow> string) \<Rightarrow> js_id \<Rightarrow> string" where
  "id_key num_str i = (case i of Id_str s \<Rightarrow> s | Id_num n \<Rightarrow> num_str n)"

text \<open>
  \<^verbatim>\<open>const damageMap = {}\<close> is an ordinary object: besides the properties stored in it, it
  answers for the property names it inherits from \<^verbatim>\<open>Object.prototype\<close>.
\<close>

definition object_prototype_keys :: "string list" where
  "object_prototype_keys =
     [''constructor'', ''hasOwnProperty'', ''isPrototypeOf'', ''propertyIsEnumerable'',
      ''toLocaleString'', ''toString'', ''valueOf'', ''__proto__'',
      ''__defineGetter__'', ''__defineSetter__'', ''__lookupGetter__'', ''__lookupSetter__'']"


text \<open>What \<^verbatim>\<open>damageMap[id]\<close> evaluates to: a stored number, an inherited member of
  \<^verbatim>\<open>Object.prototype\<close> (a function or an object, which is truthy), or \<^verbatim>\<open>undefined\<close>.\<close>

datatype js_entry = Own real | Inherited | Missing

definition damageMap_get :: "(string \<rightharpoonup> real) \<Rightarrow> string \<Rightarrow> js_entry" where
  "damageMap_get m key =
     (case m key of
        Some d \<Rightarrow> Own d
      | None \<Rightarrow> if key \<in> set object_prototype_keys then Inherited else Missing)"

text \<open>
  \<^verbatim>\<open>edge.id || `${edge.from.lat}_${edge.to.lat}`\<close>: the id when it is truthy, otherwise a
  string made of the two latitudes.
\<close>

definition edge_key :: "(real \<Rightarrow> string) \<Rightarrow> edge \<Rightarrow> string" where
  "edge_key num_str e =
     (case edge_id e of
        Some i \<Rightarrow> if truthy_id i then id_key num_str i
                  else num_str (lat (from_pt e)) @ ''_'' @ num_str (lat (to_pt e))
      | None \<Rightarrow> num_str (lat (from_pt e)) @ ''_'' @ num_str (lat (to_pt e)))"



text \<open>
  The \<^verbatim>\<open>forEach\<close> over the edges. An edge whose key names an inherited member receives
  that member as its \<^verbatim>\<open>damage\<close>, which is no number: the run then leaves the pages this
  model describes, and the result is the anomaly with the key.
\<close>

datatype load_anomaly = Damage_not_a_number string

fun damage_map_loop ::
  "(real \<Rightarrow> string) \<Rightarrow> (string \<rightharpoonup> real) \<Rightarrow> rng \<Rightarrow> nat \<Rightarrow> edge list
     \<Rightarrow> load_anomaly + (edge list \<times> nat)" where
  "damage_map_loop num_str m rng k [] = Inr ([], k)"
| "damage_map_loop num_str m rng k (e # es) =
     (case damageMap_get m (edge_key num_str e) of
        Inherited \<Rightarrow> Inl (Damage_not_a_number (edge_key num_str e))
      | Own d \<Rightarrow>
          if d \<noteq> 0
          then (case damage_map_loop num_str m rng k es of
                  Inl a \<Rightarrow> Inl a
                | Inr (es', k') \<Rightarrow> Inr (e\<lparr>damage := d\<rparr> # es', k'))
          else (case damage_map_loop num_str m rng (k + 1) es of
                  Inl a \<Rightarrow> Inl a
                | Inr (es', k') \<Rightarrow> Inr (e\<lparr>damage := rng k * 0.5\<rparr> # es', k'))
      | Missing \<Rightarrow>
          (case damage_map_loop num_str m rng (k + 1) es of
             Inl a \<Rightarrow> Inl a
           | Inr (es', k') \<Rightarrow> Inr (e\<lparr>damage := rng k * 0.5\<rparr> # es', k')))"










subsection \<open>Route requests (\<^verbatim>\<open>calculateRoute\<close>, \<^verbatim>\<open>createDemoRoute\<close>)\<close>

text \<open>
  What \<^verbatim>\<open>parseFloat\<close> can return: a finite number, the two infinities, or \<^verbatim>\<open>NaN\<close>.
  A variable bound by destructuring beyond the end of an array is \<^verbatim>\<open>undefined\<close>, which
  is \<open>None\<close> of \<open>jsnum option\<close>. Strings are byte strings, and white space is the
  ASCII white space (space, tab, line feed, vertical tab, form feed, carriage return).
\<close>

datatype jsnum = Num real | PInf | NInf | NaN

definition is_ws :: "char \<Rightarrow> bool" where
  "is_ws c = (c = CHR '' '' \<or> c = CHR 0x09 \<or> c = CHR 0x0A \<or> c = CHR 0x0B
              \<or> c = CHR 0x0C \<or> c = CHR 0x0D)"

definition trim :: "string \<Rightarrow> string" where
  "trim s = rev (dropWhile is_ws (rev (dropWhile is_ws s)))"

text \<open>\<^verbatim>\<open>String.prototype.split\<close> with a one-character separator: the pieces between the
  separators, one piece (the whole string) when there is none.\<close>

fun split_on :: "char \<Rightarrow> string \<Rightarrow> string list" where
  "split_on sep [] = [[]]"
| "split_on sep (c # cs) =
     (if c = sep then [] # split_on sep cs
      else (case split_on sep cs of
              [] \<Rightarrow> [[c]]
            | p # ps \<Rightarrow> (c # p) # ps))"

definition is_digit :: "char \<Rightarrow> bool" where
  "is_digit c = (48 \<le> (of_char c :: nat) \<and> (of_char c :: nat) \<le> 57)"

definition digits_value :: "string \<Rightarrow> nat" where
  "digits_value ds = foldl (\<lambda>acc c. acc * 10 + (of_char c - 48)) 0 ds"

text \<open>The factor of an exponent part \<^verbatim>\<open>e\<close>, optional sign, digits; 1 when the text does
  not start with a complete exponent part.\<close>

definition exponent_factor :: "string \<Rightarrow> real" where
  "exponent_factor r =
     (case r of
        [] \<Rightarrow> 1
      | c # r' \<Rightarrow>
          if c = CHR ''e'' \<or> c = CHR ''E''
          then (let neg = (r' \<noteq> [] \<and> hd r' = CHR ''-'');
                    signed = (r' \<noteq> [] \<and> (hd r' = CHR ''-'' \<or> hd r' = CHR ''+''));
                    ds = takeWhile is_digit (if signed then tl r' else r')
                in if ds = [] then 1
                   else if neg then 1 / 10 ^ digits_value ds
                   else 10 ^ digits_value ds)
          else 1)"

text \<open>The value of the longest prefix that is an unsigned decimal literal (digits, an
  optional fraction, an optional exponent), \<open>None\<close> when no prefix is one.\<close>

definition str_decimal :: "string \<Rightarrow> real option" where
  "str_decimal s =
     (let ip = takeWhile is_digit s;
          r1 = dropWhile is_digit s;
          has_dot = (r1 \<noteq> [] \<and> hd r1 = CHR ''.'');
          fp = (if has_dot then takeWhile is_digit (tl r1) else []);
          r2 = (if has_dot then dropWhile is_digit (tl r1) else r1)
      in if ip = [] \<and> fp = [] then None
         else Some ((real (digits_value ip) + real (digits_value fp) / 10 ^ length fp)
                    * exponent_factor r2))"

text \<open>
  \<^verbatim>\<open>parseFloat\<close> of the language: leading white space is skipped, then the longest prefix
  that is a signed decimal literal or \<^verbatim>\<open>Infinity\<close> gives the value; \<^verbatim>\<open>NaN\<close> when there
  is none. The value is the exact decimal, not its nearest double.
\<close>

definition parseFloat :: "string \<Rightarrow> jsnum" where
  "parseFloat s =
     (let t = dropWhile is_ws s;
          neg = (t \<noteq> [] \<and> hd t = CHR ''-'');
          u = (if t \<noteq> [] \<and> (hd t = CHR ''-'' \<or> hd t = CHR ''+'') then tl t else t)
      in if take 8 u = ''Infinity'' then (if neg then NInf else PInf)
         else (case str_decimal u of
                 None \<Rightarrow> NaN
               | Some v \<Rightarrow> Num (if neg then - v else v)))"

record latlon =
  p_lat :: "jsnum option"
  p_lon :: "jsnum option"

text \<open>\<^verbatim>\<open>const [lat, lon] = input.split(',').map(s => parseFloat(s.trim()))\<close>\<close>

definition parse_point :: "string \<Rightarrow> latlon" where
  "parse_point input =
     (case map (\<lambda>s. parseFloat (trim s)) (split_on CHR '','' input) of
        [] \<Rightarrow> \<lparr>p_lat = None, p_lon = None\<rparr>
      | [a] \<Rightarrow> \<lparr>p_lat = Some a, p_lon = None\<rparr>
      | a # b # _ \<Rightarrow> \<lparr>p_lat = Some a, p_lon = Some b\<rparr>)"

record route_request =
  req_start :: latlon
  req_end :: latlon
  vehicle_type :: string
  urgency :: real
  req_method :: string

record route_data =
  path_coords :: "coord list"
  estimated_time :: real
  distance_km :: real
  risk_score :: real
  route_method :: string
  is_optimal :: bool

record route_reply =
  success :: bool
  reply_route :: "route_data option"

text \<open>
  \<^verbatim>\<open>createDemoRoute\<close>: six points, \<^verbatim>\<open>i = 0 .. steps\<close> with \<^verbatim>\<open>steps = 5\<close>. Point
  \<open>i\<close> draws two random numbers, first for the latitude, then for the longitude. The
  other fields are constants.
\<close>

definition demo_point :: "rng \<Rightarrow> nat \<Rightarrow> real \<Rightarrow> real \<Rightarrow> real \<Rightarrow> real \<Rightarrow> nat \<Rightarrow> coord" where
  "demo_point rng k startLat startLon endLat endLon i =
     (let t = real i / 5
      in \<lparr>lat = startLat + (endLat - startLat) * t + (rng (k + 2 * i) - 0.5) * 0.002,
          lon = startLon + (endLon - startLon) * t + (rng (k + 2 * i + 1) - 0.5) * 0.002\<rparr>)"

definition createDemoRoute ::
  "rng \<Rightarrow> nat \<Rightarrow> real \<Rightarrow> real \<Rightarrow> real \<Rightarrow> real \<Rightarrow> route_data \<times> nat" where
  "createDemoRoute rng k startLat startLon endLat endLon =
     (\<lparr>path_coords = map (demo_point rng k startLat startLon endLat endLon) [0..<6],
       estimated_time = 12.5,
       distance_km = 2.3,
       risk_score = 0.25,
       route_method = ''astar'',
       is_optimal = True\<rparr>, k + 12)"

text \<open>
  The outcomes of \<^verbatim>\<open>calculateRoute\<close>: no request and an error toast; the server's route
  drawn; the server's refusal shown; the demo route drawn after a failed request. The demo
  route is modelled for finite coordinates; with \<^verbatim>\<open>NaN\<close>, an infinity or \<^verbatim>\<open>undefined\<close>
  among them \<^verbatim>\<open>createDemoRoute\<close> still runs and makes its twelve draws, but the points it
  computes are not finite numbers: that is the last outcome.
\<close>

datatype calc_outcome =
    Rejected
  | Server_route route_request route_data
  | Server_refused route_request
  | Demo_route route_request route_data
  | Demo_route_not_finite route_request

fun request_sent :: "calc_outcome \<Rightarrow> route_request option" where
  "request_sent Rejected = None"
| "request_sent (Server_route req r) = Some req"
| "request_sent (Server_refused req) = Some req"
| "request_sent (Demo_route req r) = Some req"
| "request_sent (Demo_route_not_finite req) = Some req"

fun finite_num :: "jsnum option \<Rightarrow> real option" where
  "finite_num (Some (Num x)) = Some x"
| "finite_num _ = None"

text \<open>
  The server is a parameter: its reply to a request, \<open>None\<close> when \<^verbatim>\<open>fetch\<close> or the
  decoding of the reply throws. The only check before the request is
  \<^verbatim>\<open>!startInput || !endInput\<close>, true of a string exactly when it is empty.
\<close>

definition calculateRoute ::
  "(route_request \<Rightarrow> route_reply option) \<Rightarrow> rng \<Rightarrow> nat \<Rightarrow> string \<Rightarrow> string \<Rightarrow> calc_outcome \<times> nat" where
  "calculateRoute server rng k startInput endInput =
     (if startInput = [] \<or> endInput = [] then (Rejected, k)
      else
        (let s = parse_point startInput;
             e = parse_point endInput;
             req = \<lparr>req_start = s, req_end = e, vehicle_type = ''ambulance'',
                    urgency = 0.8, req_method = ''astar''\<rparr>
         in case server req of
              Some reply \<Rightarrow>
                (case reply_route reply of
                   Some r \<Rightarrow> if success reply then (Server_route req r, k)
                             else (Server_refused req, k)
                 | None \<Rightarrow> (Server_refused req, k))
            | None \<Rightarrow>
                (case (finite_num (p_lat s), finite_num (p_lon s),
                       finite_num (p_lat e), finite_num (p_lon e)) of
                   (Some a, Some b, Some c, Some d) \<Rightarrow>
                     (case createDemoRoute rng k a b c d of
                        (r, k') \<Rightarrow> (Demo_route req r, k'))
                 | _ \<Rightarrow> (Demo_route_not_finite req, k + 12))))"

section \<open>The roadmap's reference code (\<^verbatim>\<open>docs/MVP_ROADMAP.md\<close>)\<close>

subsection \<open>\<^verbatim>\<open>generate_scenario\<close>\<close>

text \<open>
  An edge of the road graph as \<^verbatim>\<open>generate_scenario\<close> reads it: its two nodes and the
  value of its \<^verbatim>\<open>bridge\<close> tag, if any. Python's \<^verbatim>\<open>random.random()\<close> is the same kind of
  stream as above, and \<^verbatim>\<open>random.uniform(a, b)\<close> is \<^verbatim>\<open>a + (b - a) * random()\<close>.
\<close>

record road =
  r_u :: nat
  r_v :: nat
  r_bridge :: "string option"

definition py_uniform :: "real \<Rightarrow> real \<Rightarrow> real \<Rightarrow> real" where
  "py_uniform a b u = a + (b - a) * u"

definition base_prob :: "real \<Rightarrow> road \<Rightarrow> real" where
  "base_prob severity r =
     (if r_bridge r = Some ''yes'' then severity / 10 * 1.5 else severity / 10)"

text \<open>Only an edge decided to be damaged draws a second number and enters the result;
  the other edges receive no score.\<close>

fun generate_scenario_loop ::
  "real \<Rightarrow> rng \<Rightarrow> nat \<Rightarrow> road list \<Rightarrow> (nat \<times> nat \<times> real) list \<times> nat" where
  "generate_scenario_loop severity rng k [] = ([], k)"
| "generate_scenario_loop severity rng k (r # rs) =
     (if rng k < base_prob severity r
      then (case generate_scenario_loop severity rng (k + 2) rs of
              (ds, k') \<Rightarrow> ((r_u r, r_v r, py_uniform 0.3 1.0 (rng (k + 1))) # ds, k'))
      else generate_scenario_loop severity rng (k + 1) rs)"

definition generate_scenario :: "road list \<Rightarrow> real \<Rightarrow> rng \<Rightarrow> (nat \<times> nat \<times> real) list" where
  "generate_scenario graph severity rng = fst (generate_scenario_loop severity rng 0 graph)"

subsection \<open>\<^verbatim>\<open>DisasterRoutingEnv.step\<close>\<close>

record routing_env =
  env_neighbors :: "nat \<Rightarrow> nat list"
  env_length :: "nat \<times> nat \<rightharpoonup> real"
  damage_scores :: "nat \<times> nat \<rightharpoonup> real"
  env_start :: nat
  env_goal :: nat
  env_urgency :: real
  current_node :: nat

datatype py_error = IndexError | KeyError

text \<open>
  \<^verbatim>\<open>step\<close> returns the new environment, the reward and \<^verbatim>\<open>done\<close> (the observation is
  computed by a method the document does not give). An action beyond the neighbour list
  raises \<^verbatim>\<open>IndexError\<close>, an edge without a \<^verbatim>\<open>length\<close> raises \<^verbatim>\<open>KeyError\<close>; a missing
  damage score is 0.
\<close>

definition step :: "routing_env \<Rightarrow> nat \<Rightarrow> py_error + (routing_env \<times> real \<times> bool)" where
  "step env action =
     (let neighbors = env_neighbors env (current_node env)
      in if length neighbors \<le> action then Inl IndexError
         else
           (let next_node = neighbors ! action;
                edge_damage = (case damage_scores env (current_node env, next_node) of
                                 None \<Rightarrow> 0 | Some d \<Rightarrow> d)
            in case env_length env (current_node env, next_node) of
                 None \<Rightarrow> Inl KeyError
               | Some len \<Rightarrow>
                   (let base_time = len / 50;
                        actual_time = base_time * (1 + edge_damage * 2);
                        reward = - actual_time - edge_damage * 10;
                        done = (next_node = env_goal env)
                    in Inr (env\<lparr>current_node := next_node\<rparr>,
                            (if done then reward + env_urgency env * 50 else reward),
                            done))))"

text \<open>
  The edge cost in the words of the specification, to compare \<^verbatim>\<open>step\<close> with:
  \<^verbatim>\<open>(length / base_speed) * (1 + damage_score * K_slowdown) + damage_score * K_risk_penalty\<close>,
  with the defaults 2.0 and 10.0.
\<close>

definition spec_edge_cost :: "real \<Rightarrow> real \<Rightarrow> real \<Rightarrow> real \<Rightarrow> real \<Rightarrow> real" where
  "spec_edge_cost len speed dmg k_slow k_risk = (len / speed) * (1 + dmg * k_slow) + dmg * k_risk"

definition default_K_slowdown :: real where
  "default_K_slowdown = 2.0"

definition default_K_risk_penalty :: real where
  "default_K_risk_penalty = 10.0"

section \<open>The risk router of the specification\<close>

text \<open>
  Modelled from the spec: the routing engine (the road graph and \<^verbatim>\<open>find_route\<close>,
  sections 3, 4.1 and 4.3 of the specification) runs in the API process, whose code is
  not among the sources; the dashboard only reaches it through \<^verbatim>\<open>POST /route\<close>. A node
  has an identifier and planar (projected) coordinates.
\<close>

record rnode =
  node_id :: nat
  node_x :: real
  node_y :: real

text \<open>
  Modelled from the spec: the fields of a directed edge that routing reads (identifier,
  end points, length, base travel speed, damage score).
\<close>

record redge =
  redge_id :: nat
  src :: nat
  dst :: nat
  length_m :: real
  base_speed :: real
  damage_score :: real

text \<open>Modelled from the spec: the network graph owns all nodes and edges.\<close>

record network =
  nodes :: "rnode list"
  edges :: "redge list"

text \<open>
  Modelled from the spec: the configuration of the router, namely the two cost constants,
  the critical-damage threshold and the maximum snap distance.
\<close>

record router_config =
  K_slowdown :: real
  K_risk_penalty :: real
  critical_threshold :: real
  max_snap_distance :: real

text \<open>Modelled from the spec: the error results of a route query (section 7); the
  reason of \<^verbatim>\<open>RouteNotFound\<close> is the number of critical blockages.\<close>

datatype route_error = NoNearbyNode | RouteNotFound nat

text \<open>Modelled from the spec: a route is the ordered sequence of nodes and edges, the
  cumulative distance, the cumulative estimated time and the risk score.\<close>

record route =
  route_nodes :: "nat list"
  route_edges :: "redge list"
  route_distance :: real
  route_time :: real
  route_risk :: real

text \<open>Modelled from the spec: the cost of traversing an edge (section 4.3, step 2).\<close>

definition edge_cost :: "router_config \<Rightarrow> redge \<Rightarrow> real" where
  "edge_cost cfg e =
     spec_edge_cost (length_m e) (base_speed e) (damage_score e) (K_slowdown cfg) (K_risk_penalty cfg)"

text \<open>Modelled from the spec: an edge at or above the critical threshold is blocked and
  excluded from the search (section 4.3, step 3).\<close>

definition blocked :: "router_config \<Rightarrow> redge \<Rightarrow> bool" where
  "blocked cfg e = (critical_threshold cfg \<le> damage_score e)"

definition passable_edges :: "router_config \<Rightarrow> network \<Rightarrow> redge list" where
  "passable_edges cfg g = filter (\<lambda>e. \<not> blocked cfg e) (edges g)"

text \<open>Modelled from the spec: snapping a coordinate to the nearest node by planar
  distance; nothing is returned when no node lies within the maximum snap distance
  (distances are compared by their squares).\<close>

definition dist2 :: "rnode \<Rightarrow> real \<times> real \<Rightarrow> real" where
  "dist2 n p = (node_x n - fst p)\<^sup>2 + (node_y n - snd p)\<^sup>2"

fun nearest :: "real \<times> real \<Rightarrow> rnode list \<Rightarrow> rnode option" where
  "nearest p [] = None"
| "nearest p (n # ns) =
     (case nearest p ns of
        None \<Rightarrow> Some n
      | Some m \<Rightarrow> if dist2 n p \<le> dist2 m p then Some n else Some m)"

definition snap :: "router_config \<Rightarrow> network \<Rightarrow> real \<times> real \<Rightarrow> nat option" where
  "snap cfg g p =
     (case nearest p (nodes g) of
        None \<Rightarrow> None
      | Some n \<Rightarrow>
          if 0 \<le> max_snap_distance cfg \<and> dist2 n p \<le> (max_snap_distance cfg)\<^sup>2
          then Some (node_id n) else None)"

text \<open>Modelled from the spec: the summaries of a path (section 4.3, step 5): distance,
  estimated time inflated by damage, and the length-weighted mean damage.\<close>

definition path_distance :: "redge list \<Rightarrow> real" where
  "path_distance p = sum_list (map length_m p)"

definition path_time :: "router_config \<Rightarrow> redge list \<Rightarrow> real" where
  "path_time cfg p =
     sum_list (map (\<lambda>e. (length_m e / base_speed e) * (1 + damage_score e * K_slowdown cfg)) p)"

definition path_risk :: "redge list \<Rightarrow> real" where
  "path_risk p =
     (if path_distance p = 0 then 0
      else sum_list (map (\<lambda>e. damage_score e * length_m e) p) / path_distance p)"

text \<open>Modelled from the spec: the tentative result for a node during the search, its
  cumulative cost and the edges leading to it; and the preference between two of them:
  lower cost, then fewer edges, then lower risk score.\<close>

record label =
  l_cost :: real
  l_path :: "redge list"

definition better :: "label \<Rightarrow> label \<Rightarrow> bool" where
  "better a b =
     (l_cost a < l_cost b
      \<or> (l_cost a = l_cost b
         \<and> (length (l_path a) < length (l_path b)
            \<or> (length (l_path a) = length (l_path b)
               \<and> path_risk (l_path a) < path_risk (l_path b)))))"

text \<open>Modelled from the spec: Dijkstra's choice of the next node, the unsettled node
  with the best label (the earliest in the list among equals).\<close>

fun pick_min :: "(nat \<rightharpoonup> label) \<Rightarrow> nat list \<Rightarrow> nat option" where
  "pick_min best [] = None"
| "pick_min best (u # us) =
     (case best u of
        None \<Rightarrow> pick_min best us
      | Some l \<Rightarrow>
          (case pick_min best us of
             None \<Rightarrow> Some u
           | Some v \<Rightarrow>
               (case best v of
                  None \<Rightarrow> Some u
                | Some l' \<Rightarrow> if better l' l then Some v else Some u)))"

text \<open>Modelled from the spec: relaxing one edge out of a settled node with label
  \<open>l\<close>, and all edges out of node \<open>u\<close> towards unsettled nodes.\<close>

definition relax :: "router_config \<Rightarrow> label \<Rightarrow> redge \<Rightarrow> (nat \<rightharpoonup> label) \<Rightarrow> (nat \<rightharpoonup> label)" where
  "relax cfg l e best =
     (let cand = \<lparr>l_cost = l_cost l + edge_cost cfg e, l_path = l_path l @ [e]\<rparr>
      in case best (dst e) of
           None \<Rightarrow> best(dst e \<mapsto> cand)
         | Some old \<Rightarrow> if better cand old then best(dst e \<mapsto> cand) else best)"

definition relax_all ::
  "router_config \<Rightarrow> redge list \<Rightarrow> nat list \<Rightarrow> nat \<Rightarrow> (nat \<rightharpoonup> label) \<Rightarrow> (nat \<rightharpoonup> label)" where
  "relax_all cfg es rest u best =
     (case best u of
        None \<Rightarrow> best
      | Some l \<Rightarrow> fold (relax cfg l) (filter (\<lambda>e. src e = u \<and> dst e \<in> set rest) es) best)"

text \<open>Modelled from the spec: the weighted shortest-path search over the passable
  edges. Every round settles one node, so the search ends after at most as many rounds as
  there are nodes; it yields nothing when the goal cannot be reached.\<close>

function search ::
  "router_config \<Rightarrow> redge list \<Rightarrow> nat \<Rightarrow> (nat \<rightharpoonup> label) \<Rightarrow> nat list \<Rightarrow> label option" where
  "search cfg es goal best todo =
     (case pick_min best todo of
        None \<Rightarrow> None
      | Some u \<Rightarrow>
          if u = goal then best u
          else search cfg es goal (relax_all cfg es (remove1 u todo) u best) (remove1 u todo))"
  by pat_completeness auto
termination
proof (relation "measure (\<lambda>(cfg, es, goal, best, todo). length todo)")
  show "wf (measure (\<lambda>(cfg, es, goal, best, todo). length todo))"
    by simp
next
  fix cfg :: router_config and es :: "redge list" and goal :: nat
    and best :: "nat \<rightharpoonup> label" and todo :: "nat list" and u :: nat
  assume "pick_min best todo = Some u"
  then have "u \<in> set todo"
    by (induction todo arbitrary: u) (auto split: option.splits if_splits)
  then have "length (remove1 u todo) < length todo"
    using length_pos_if_in_set [of u todo] by (simp add: length_remove1)
  then show "((cfg, es, goal, relax_all cfg es (remove1 u todo) u best, remove1 u todo),
              cfg, es, goal, best, todo) \<in> measure (\<lambda>(cfg, es, goal, best, todo). length todo)"
    by simp
qed

declare search.simps [simp del]

text \<open>A sequence of edges that leads from node \<open>s\<close> to node \<open>t\<close>, each edge starting
  where the previous one ends.\<close>

fun chain :: "nat \<Rightarrow> redge list \<Rightarrow> nat \<Rightarrow> bool" where
  "chain s [] t = (s = t)"
| "chain s (e # es) t = (src e = s \<and> chain (dst e) es t)"

text \<open>Modelled from the spec: \<^verbatim>\<open>find_route\<close> (section 4.3): snap both coordinates,
  search over the passable edges from the start node with cost 0, and package the
  result. The urgency is part of the contract and not used by any step.\<close>

definition find_route ::
  "router_config \<Rightarrow> network \<Rightarrow> real \<times> real \<Rightarrow> real \<times> real \<Rightarrow> real \<Rightarrow> route_error + route" where
  "find_route cfg g start_coordinate end_coordinate vehicle_urgency =
     (case snap cfg g start_coordinate of
        None \<Rightarrow> Inl NoNearbyNode
      | Some s \<Rightarrow>
          (case snap cfg g end_coordinate of
             None \<Rightarrow> Inl NoNearbyNode
           | Some t \<Rightarrow>
               (case search cfg (passable_edges cfg g) t
                       [s \<mapsto> \<lparr>l_cost = 0, l_path = []\<rparr>]
                       (remdups (map node_id (nodes g))) of
                  None \<Rightarrow> Inl (RouteNotFound (length (filter (blocked cfg) (edges g))))
                | Some l \<Rightarrow>
                    Inr \<lparr>route_nodes = s # map dst (l_path l),
                         route_edges = l_path l,
                         route_distance = path_distance (l_path l),
                         route_time = path_time cfg (l_path l),
                         route_risk = path_risk (l_path l)\<rparr>)))"

section \<open>Sample inputs\<close>

text \<open>
  Concrete inputs at which the theorems below are instantiated: a stream of draws
  (0.1, 0.9, then 0.5 for ever), a second stream (always 0.25), and a page with two edges
  of the demo grid.
\<close>

definition sample_draws :: rng where
  "sample_draws k = (if k = 0 then 1 / 10 else if k = 1 then 9 / 10 else 1 / 2)"

definition quarter_draws :: rng where
  "quarter_draws k = 1 / 4"

definition sample_edge :: edge where
  "sample_edge = \<lparr>edge_id = None,
                   from_pt = \<lparr>lat = 41, lon = 29\<rparr>,
                   to_pt = \<lparr>lat = 41.01, lon = 29\<rparr>,
                   damage = 0\<rparr>"

definition sample_page :: dashboard where
  "sample_page = \<lparr>graph_edges = [sample_edge, sample_edge\<lparr>edge_id := Some (Id_str ''e7'')\<rparr>],
                   currentScenario = None,
                   zones = [],
                   damagedRoads = 0,
                   damagedBridges = 0,
                   scenarioStatus = ''Senaryo: Normal'',
                   recommendationCount = 0,
                   last_toast = None\<rparr>"



text \<open>A routing environment at node 0 with the neighbours 1 and 2, node 2 being the goal.\<close>

definition sample_env :: routing_env where
  "sample_env = \<lparr>env_neighbors = (\<lambda>n. if n = 0 then [1, 2] else []),
                  env_length = [(0, 1) \<mapsto> 100, (0, 2) \<mapsto> 50],
                  damage_scores = [(0, 1) \<mapsto> 1 / 2],
                  env_start = 0,
                  env_goal = 2,
                  env_urgency = 8 / 10,
                  current_node = 0\<rparr>"

text \<open>
  A network of three nodes. The direct edge from node 0 to node 1 is critically damaged
  (0.9); the detour over node 2 is passable.
\<close>

definition sample_config :: router_config where
  "sample_config = \<lparr>K_slowdown = default_K_slowdown,
                     K_risk_penalty = default_K_risk_penalty,
                     critical_threshold = 8 / 10,
                     max_snap_distance = 1\<rparr>"

definition edge_direct :: redge where
  "edge_direct = \<lparr>redge_id = 0, src = 0, dst = 1, length_m = 100, base_speed = 100,
                   damage_score = 9 / 10\<rparr>"

definition edge_out :: redge where
  "edge_out = \<lparr>redge_id = 1, src = 0, dst = 2, length_m = 100, base_speed = 100,
                damage_score = 1 / 10\<rparr>"

definition edge_back :: redge where
  "edge_back = \<lparr>redge_id = 2, src = 2, dst = 1, length_m = 100, base_speed = 100,
                 damage_score = 0\<rparr>"

definition sample_network :: network where
  "sample_network = \<lparr>nodes = [\<lparr>node_id = 0, node_x = 0, node_y = 0\<rparr>,
                              \<lparr>node_id = 1, node_x = 2, node_y = 0\<rparr>,
                              \<lparr>node_id = 2, node_x = 1, node_y = 1\<rparr>],
                      edges = [edge_direct, edge_out, edge_back]\<rparr>"

section \<open>Properties\<close>

subsection \<open>The demo grid\<close>

lemma demoEdges_distinct: "distinct demoEdges"
  by (simp add: demoEdges_def demo_cell_def upt_rec [of _ "numeral _"] Let_def)

lemma set_demo_cell:
  "set (demo_cell i j) =
     (if j < 4 then {east_edge i j} else {}) \<union> (if i < 4 then {north_edge i j} else {})"
  by (simp add: demo_cell_def east_edge_def north_edge_def grid_node_def Let_def)

lemma in_demo_cell:
  "e \<in> set (demo_cell i j) \<longleftrightarrow> (j < 4 \<and> e = east_edge i j) \<or> (i < 4 \<and> e = north_edge i j)"
  unfolding set_demo_cell by auto

lemma in_demoEdges:
  "e \<in> set demoEdges \<longleftrightarrow>
     (\<exists>i j. i < 5 \<and> j < 5 \<and> ((j < 4 \<and> e = east_edge i j) \<or> (i < 4 \<and> e = north_edge i j)))"
proof -
  have "e \<in> set demoEdges \<longleftrightarrow> (\<exists>i j. i < 5 \<and> j < 5 \<and> e \<in> set (demo_cell i j))"
    by (simp add: demoEdges_def Bex_def)
  then show ?thesis
    by (simp only: in_demo_cell)
qed

lemma set_demoEdges:
  "set demoEdges =
     (\<lambda>(i, j). east_edge i j) ` ({0..<5} \<times> {0..<4})
     \<union> (\<lambda>(i, j). north_edge i j) ` ({0..<4} \<times> {0..<5})"
proof (rule set_eqI)
  fix e
  show "e \<in> set demoEdges \<longleftrightarrow>
          e \<in> (\<lambda>(i, j). east_edge i j) ` ({0..<5} \<times> {0..<4})
              \<union> (\<lambda>(i, j). north_edge i j) ` ({0..<4} \<times> {0..<5})"
  proof
    assume "e \<in> set demoEdges"
    then obtain i j where ij: "i < 5" "j < 5"
        "(j < 4 \<and> e = east_edge i j) \<or> (i < 4 \<and> e = north_edge i j)"
      unfolding in_demoEdges by blast
    from ij(3) show "e \<in> (\<lambda>(i, j). east_edge i j) ` ({0..<5} \<times> {0..<4})
              \<union> (\<lambda>(i, j). north_edge i j) ` ({0..<4} \<times> {0..<5})"
    proof
      assume "j < 4 \<and> e = east_edge i j"
      then have "e \<in> (\<lambda>(i, j). east_edge i j) ` ({0..<5} \<times> {0..<4})"
        using ij(1) by (intro image_eqI [where x = "(i, j)"]) simp_all
      then show ?thesis by simp
    next
      assume "i < 4 \<and> e = north_edge i j"
      then have "e \<in> (\<lambda>(i, j). north_edge i j) ` ({0..<4} \<times> {0..<5})"
        using ij(2) by (intro image_eqI [where x = "(i, j)"]) simp_all
      then show ?thesis by simp
    qed
  next
    assume "e \<in> (\<lambda>(i, j). east_edge i j) ` ({0..<5} \<times> {0..<4})
              \<union> (\<lambda>(i, j). north_edge i j) ` ({0..<4} \<times> {0..<5})"
    then consider i j where "i < 5" "j < 4" "e = east_edge i j"
      | i j where "i < 4" "j < 5" "e = north_edge i j"
      by auto
    then show "e \<in> set demoEdges"
    proof cases
      case 1
      then have "i < 5 \<and> j < 5 \<and> ((j < 4 \<and> e = east_edge i j) \<or> (i < 4 \<and> e = north_edge i j))"
        by simp
      then show ?thesis unfolding in_demoEdges by blast
    next
      case 2
      then have "i < 5 \<and> j < 5 \<and> ((j < 4 \<and> e = east_edge i j) \<or> (i < 4 \<and> e = north_edge i j))"
        by simp
      then show ?thesis unfolding in_demoEdges by blast
    qed
  qed
qed

text \<open>
  Claim C9. The fallback demo graph built by \<^verbatim>\<open>loadDemoData\<close> is the 5 by 5 grid: its
  edges are exactly the edge to the east of every node that has an eastern neighbour and
  the edge to the north of every node that has a northern neighbour, each ending 0.01
  further than it starts; they are 40 pairwise distinct edges, 20 horizontal and 20
  vertical, and every edge is created with damage 0.
\<close>

theorem loadDemoData_grid:
  "graph_edges (loadDemoData s) = demoEdges
   \<and> set demoEdges =
       (\<lambda>(i, j). east_edge i j) ` ({0..<5} \<times> {0..<4})
       \<union> (\<lambda>(i, j). north_edge i j) ` ({0..<4} \<times> {0..<5})
   \<and> length demoEdges = 40
   \<and> length (filter horizontal demoEdges) = 20
   \<and> length (filter vertical demoEdges) = 20
   \<and> distinct demoEdges
   \<and> map damage demoEdges = replicate (length demoEdges) 0"
proof -
  have counts: "length demoEdges = 40
      \<and> length (filter horizontal demoEdges) = 20
      \<and> length (filter vertical demoEdges) = 20
      \<and> map damage demoEdges = replicate (length demoEdges) 0"
    by (simp add: demoEdges_def demo_cell_def upt_rec [of _ "numeral _"]
        Let_def horizontal_def vertical_def)
  show ?thesis
    using counts set_demoEdges demoEdges_distinct by (simp add: loadDemoData_def)
qed

subsection \<open>Clearing\<close>

lemma clearScenario_edges:
  "map damage (graph_edges (clearScenario s)) = replicate (length (graph_edges s)) 0"
  by (simp add: clearScenario_def map_replicate_const comp_def)

lemma clearScenario_idem: "clearScenario (clearScenario s) = clearScenario s"
  by (simp add: clearScenario_def comp_def)

lemma demo_scenario_loop_shape:
  "map (\<lambda>e. e\<lparr>damage := 0\<rparr>) (fst (demo_scenario_loop rate rng k cnt es))
     = map (\<lambda>e. e\<lparr>damage := 0\<rparr>) es"
proof (induction es arbitrary: k cnt)
  case Nil
  show ?case by simp
next
  case (Cons e es)
  show ?case
    using Cons.IH [of "k + 2" "cnt + 1"] Cons.IH [of "k + 2" cnt]
    by (auto split: prod.splits)
qed

lemma random_damage_loop_shape:
  "map (\<lambda>e. e\<lparr>damage := 0\<rparr>) (fst (random_damage_loop rng k es))
     = map (\<lambda>e. e\<lparr>damage := 0\<rparr>) es"
proof (induction es arbitrary: k)
  case Nil
  show ?case by simp
next
  case (Cons e es)
  show ?case
    using Cons.IH [of "k + 1"] by (auto split: prod.splits)
qed

lemma clear_after_demo:
  "clearScenario (fst (applyDemoScenario scenario rng k s)) = clearScenario s"
  using demo_scenario_loop_shape [of "damageRate scenario" rng k 0 "graph_edges s"]
  by (auto simp: applyDemoScenario_def clearScenario_def split: prod.splits)

lemma clear_after_random:
  "clearScenario (fst (applyRandomDamage rng k s)) = clearScenario s"
  using random_damage_loop_shape [of rng k "graph_edges s"]
  by (auto simp: applyRandomDamage_def clearScenario_def split: prod.splits)

lemma clear_after_scenarios:
  "clearScenario (fst (apply_scenarios scenarios rng k s)) = clearScenario s"
proof (induction scenarios arbitrary: k s)
  case Nil
  show ?case by simp
next
  case (Cons sc scs)
  obtain s' k' where step: "applyDemoScenario sc rng k s = (s', k')"
    by (cases "applyDemoScenario sc rng k s")
  have "clearScenario (fst (apply_scenarios (sc # scs) rng k s))
          = clearScenario (fst (apply_scenarios scs rng k' s'))"
    by (simp add: step)
  also have "\<dots> = clearScenario s'"
    by (rule Cons.IH)
  also have "\<dots> = clearScenario s"
    using clear_after_demo [of sc rng k s] by (simp add: step)
  finally show ?case .
qed

text \<open>
  Claim C4. Clearing the scenario sets the damage of every edge to exactly 0 and is
  idempotent; and however many demo scenarios were applied before, clearing gives the
  state that clearing the original page gives.
\<close>

theorem clearScenario_resets:
  "map damage (graph_edges (clearScenario s)) = replicate (length (graph_edges s)) 0
   \<and> clearScenario (clearScenario s) = clearScenario s
   \<and> clearScenario (fst (apply_scenarios scenarios rng k s)) = clearScenario s"
  by (simp add: clearScenario_edges clearScenario_idem clear_after_scenarios)

subsection \<open>Damage scores after a scenario\<close>

lemma unit_drawsD: "unit_draws rng \<Longrightarrow> 0 \<le> rng k \<and> rng k < 1"
  by (simp add: unit_draws_def)

lemma length_demo_scenario_loop:
  "length (fst (demo_scenario_loop rate rng k cnt es)) = length es"
proof (induction es arbitrary: k cnt)
  case Nil
  show ?case by simp
next
  case (Cons e es)
  show ?case
    using Cons.IH [of "k + 2" "cnt + 1"] Cons.IH [of "k + 2" cnt]
    by (auto split: prod.splits)
qed

lemma demo_scenario_loop_nth:
  "i < length es \<Longrightarrow>
   fst (demo_scenario_loop rate rng k cnt es) ! i =
     (es ! i)\<lparr>damage := (if rng (k + 2 * i) < rate
                           then rng (k + 2 * i + 1) * 0.5 + 0.3
                           else rng (k + 2 * i + 1) * 0.2)\<rparr>"
proof (induction es arbitrary: k cnt i)
  case Nil
  then show ?case by simp
next
  case (Cons e es)
  show ?case
  proof (cases i)
    case 0
    then show ?thesis by (auto split: prod.splits)
  next
    case (Suc j)
    with Cons.prems have j: "j < length es" by simp
    show ?thesis
      using Cons.IH [OF j, of "k + 2" "cnt + 1"] Cons.IH [OF j, of "k + 2" cnt] Suc
      by (auto split: prod.splits)
  qed
qed

lemma demo_scenario_loop_range:
  assumes "unit_draws rng"
  shows "\<forall>e \<in> set (fst (demo_scenario_loop rate rng k cnt es)). 0 \<le> damage e \<and> damage e < 0.8"
proof (induction es arbitrary: k cnt)
  case Nil
  show ?case by simp
next
  case (Cons e es)
  have b: "0 \<le> rng (k + 1) \<and> rng (k + 1) < 1"
    using assms by (rule unit_drawsD)
  show ?case
    using Cons.IH [of "k + 2" "cnt + 1"] Cons.IH [of "k + 2" cnt] b
    by (auto split: prod.splits)
qed


lemma applyDemoScenario_edges:
  "graph_edges (fst (applyDemoScenario sc rng k s)) =
     fst (demo_scenario_loop (damageRate sc) rng k 0 (graph_edges s))"
  by (simp add: applyDemoScenario_def split: prod.splits)


lemma apply_scenarios_range:
  assumes "unit_draws rng" and "scs \<noteq> []"
  shows "\<forall>e \<in> set (graph_edges (fst (apply_scenarios scs rng k s))). 0 \<le> damage e \<and> damage e < 0.8"
  using assms(2)
proof (induction scs arbitrary: k s)
  case Nil
  then show ?case by simp
next
  case (Cons sc scs)
  obtain s' k' where st: "applyDemoScenario sc rng k s = (s', k')"
    by (cases "applyDemoScenario sc rng k s")
  show ?case
  proof (cases "scs = []")
    case True
    have "graph_edges s' = fst (demo_scenario_loop (damageRate sc) rng k 0 (graph_edges s))"
      using applyDemoScenario_edges [of sc rng k s] by (simp add: st)
    then show ?thesis
      using demo_scenario_loop_range [OF assms(1), of "damageRate sc" k 0 "graph_edges s"] True
      by (simp add: st)
  next
    case False
    then show ?thesis using Cons.IH [of k' s'] by (simp add: st)
  qed
qed

lemma unit_sample_draws: "unit_draws sample_draws"
  by (simp add: unit_draws_def sample_draws_def)

subsection \<open>How a demo scenario scores an edge\<close>

lemma sample_run_siddetli:
  "map damage (graph_edges (fst (applyDemoScenario ''siddetli'' sample_draws 0 sample_page)))
     = [3 / 4, 11 / 20]"
  by (simp add: applyDemoScenario_def sample_page_def sample_draws_def damageRate_def)

text \<open>
  Claim C2, as stated, fails. With the draws 0.1 (below the rate 0.6 of the scenario) and
  0.9, the first edge receives 0.9 * 0.5 + 0.3 = 0.75, whereas a uniform draw from
  [0.3, 1.0] made of the same random number is 0.3 + 0.7 * 0.9 = 0.93: the scores of damaged
  edges stop short of 0.8.
\<close>

theorem demo_scenario_not_uniform_to_one:
  "sample_draws 0 < damageRate ''siddetli''
   \<and> damage (hd (graph_edges (fst (applyDemoScenario ''siddetli'' sample_draws 0 sample_page)))) = 3 / 4
   \<and> py_uniform 0.3 1.0 (sample_draws 1) = 93 / 100
   \<and> damage (hd (graph_edges (fst (applyDemoScenario ''siddetli'' sample_draws 0 sample_page))))
       \<noteq> py_uniform 0.3 1.0 (sample_draws 1)"
  by (simp add: applyDemoScenario_def sample_page_def sample_draws_def damageRate_def py_uniform_def)

text \<open>
  Claim C2, amended. In \<^verbatim>\<open>applyDemoScenario\<close> the edge at position \<open>i\<close> takes the draws
  number \<open>k + 2i\<close> and \<open>k + 2i + 1\<close>. If the first is below the damage rate of the
  scenario its damage is 0.3 plus half the second draw, a value from 0.3 up to but
  excluding 0.8; otherwise it is a fifth of the second draw, a value from 0 up to but
  excluding 0.2, which is 0 exactly when that draw is 0.
\<close>

theorem demo_scenario_scores:
  assumes "unit_draws rng" and "i < length (graph_edges s)"
  shows "(let e' = graph_edges (fst (applyDemoScenario sc rng k s)) ! i;
              u = rng (k + 2 * i + 1)
          in (if rng (k + 2 * i) < damageRate sc
              then damage e' = 0.3 + 0.5 * u \<and> 0.3 \<le> damage e' \<and> damage e' < 0.8
              else damage e' = 0.2 * u \<and> 0 \<le> damage e' \<and> damage e' < 0.2
                   \<and> (damage e' = 0) = (u = 0)))"
proof -
  have u: "0 \<le> rng (k + 2 * i + 1) \<and> rng (k + 2 * i + 1) < 1"
    using assms(1) by (rule unit_drawsD)
  have "graph_edges (fst (applyDemoScenario sc rng k s)) ! i =
          (graph_edges s ! i)\<lparr>damage := (if rng (k + 2 * i) < damageRate sc
                                           then rng (k + 2 * i + 1) * 0.5 + 0.3
                                           else rng (k + 2 * i + 1) * 0.2)\<rparr>"
    using demo_scenario_loop_nth [OF assms(2)] by (simp add: applyDemoScenario_edges)
  then show ?thesis
    using u by (simp add: Let_def)
qed

theorem demo_scenario_scores_witness:
  "unit_draws sample_draws \<and> (1::nat) < length (graph_edges sample_page)
   \<and> \<not> sample_draws (0 + 2 * 1) < damageRate ''orta''
   \<and> damage (graph_edges (fst (applyDemoScenario ''orta'' sample_draws 0 sample_page)) ! 1) = 1 / 10
   \<and> sample_draws (0 + 2 * 0) < damageRate ''orta''
   \<and> damage (graph_edges (fst (applyDemoScenario ''orta'' sample_draws 0 sample_page)) ! 0) = 3 / 4"
proof -
  have len: "(1::nat) < length (graph_edges sample_page)" "(0::nat) < length (graph_edges sample_page)"
    by (simp_all add: sample_page_def)
  have r: "\<not> sample_draws (0 + 2 * 1) < damageRate ''orta''" "sample_draws (0 + 2 * 0) < damageRate ''orta''"
    by (simp_all add: sample_draws_def damageRate_def)
  show ?thesis
    using demo_scenario_scores [OF unit_sample_draws len(1), of "''orta''" 0]
          demo_scenario_scores [OF unit_sample_draws len(2), of "''orta''" 0] r len
    by (simp add: Let_def unit_sample_draws sample_draws_def)
qed

text \<open>The roadmap's \<^verbatim>\<open>generate_scenario\<close>: a listed edge has a level from 0.3 up to but
  excluding 1, and an edge decided to be undamaged is not listed.\<close>

lemma generate_scenario_loop_levels:
  assumes "unit_draws rng"
  shows "\<forall>(u, v, d) \<in> set (fst (generate_scenario_loop severity rng k rs)). 0.3 \<le> d \<and> d < 1"
proof (induction rs arbitrary: k)
  case Nil
  show ?case by simp
next
  case (Cons r rs)
  have b: "0 \<le> rng (k + 1) \<and> rng (k + 1) < 1"
    using assms by (rule unit_drawsD)
  show ?case
    using Cons.IH [of "k + 2"] Cons.IH [of "k + 1"] b
    by (auto simp: py_uniform_def split: prod.splits)
qed

lemma generate_scenario_loop_undamaged:
  "\<not> rng k < base_prob severity r \<Longrightarrow>
   generate_scenario_loop severity rng k (r # rs) = generate_scenario_loop severity rng (k + 1) rs"
  by simp

subsection \<open>Severity and the share of damaged edges\<close>

lemma damaged_count_Cons:
  "damaged_count (e # es) = (if 0.3 \<le> damage e then 1 else 0) + damaged_count es"
  by (simp add: damaged_count_def)

lemma demo_scenario_loop_count_mono:
  assumes "unit_draws rng" and "r1 \<le> r2"
  shows "damaged_count (fst (demo_scenario_loop r1 rng k c1 es))
           \<le> damaged_count (fst (demo_scenario_loop r2 rng k c2 es))"
proof (induction es arbitrary: k c1 c2)
  case Nil
  show ?case by (simp add: damaged_count_def)
next
  case (Cons e es)
  have b: "0 \<le> rng (k + 1) \<and> rng (k + 1) < 1"
    using assms(1) by (rule unit_drawsD)
  show ?case
    using Cons.IH [of "k + 2" "c1 + 1" "c2 + 1"] Cons.IH [of "k + 2" c1 "c2 + 1"]
          Cons.IH [of "k + 2" c1 c2] assms(2) b
    by (auto simp: damaged_count_Cons split: prod.splits)
qed

lemma scenario_fraction_mono:
  assumes "unit_draws rng" and "damageRate sc1 \<le> damageRate sc2"
  shows "scenario_fraction sc1 s rng \<le> scenario_fraction sc2 s rng"
proof -
  have "damaged_count (graph_edges (fst (applyDemoScenario sc1 rng 0 s)))
          \<le> damaged_count (graph_edges (fst (applyDemoScenario sc2 rng 0 s)))"
    using demo_scenario_loop_count_mono [OF assms] by (simp add: applyDemoScenario_edges)
  then show ?thesis
    by (simp add: scenario_fraction_def damaged_fraction_def applyDemoScenario_edges
        length_demo_scenario_loop divide_right_mono)
qed

lemma magnitude_orders_rate:
  assumes "scenario_magnitude sc1 = Some m1" and "scenario_magnitude sc2 = Some m2" and "m1 < m2"
  shows "damageRate sc1 < damageRate sc2"
  using assms by (auto simp: scenario_magnitude_def damageRate_def split: if_splits)

text \<open>
  Claim C6. For two preset scenarios of magnitudes \<open>m1 < m2\<close> the per-edge damage
  probability of the first (its damage rate) is at most that of the second, and on the same
  page with the same random stream the fraction of edges with damage at least 0.3 is
  no smaller under \<open>m2\<close>: for every single stream, hence for the mean over any collection
  of streams.
\<close>

theorem damaged_fraction_monotone_in_magnitude:
  assumes "scenario_magnitude sc1 = Some m1" and "scenario_magnitude sc2 = Some m2"
      and "m1 < m2" and "list_all unit_draws seeds"
  shows "damageRate sc1 \<le> damageRate sc2
       \<and> list_all (\<lambda>rng. scenario_fraction sc1 s rng \<le> scenario_fraction sc2 s rng) seeds
       \<and> mean_fraction sc1 s seeds \<le> mean_fraction sc2 s seeds"
proof -
  have rate: "damageRate sc1 \<le> damageRate sc2"
    using magnitude_orders_rate [OF assms(1-3)] by simp
  have each: "\<And>rng. rng \<in> set seeds \<Longrightarrow> scenario_fraction sc1 s rng \<le> scenario_fraction sc2 s rng"
    using assms(4) scenario_fraction_mono [OF _ rate] by (simp add: list_all_iff)
  have "sum_list (map (scenario_fraction sc1 s) seeds) \<le> sum_list (map (scenario_fraction sc2 s) seeds)"
    by (rule sum_list_mono) (rule each)
  then have "mean_fraction sc1 s seeds \<le> mean_fraction sc2 s seeds"
    by (simp add: mean_fraction_def divide_right_mono)
  with rate each show ?thesis by (simp add: list_all_iff)
qed

lemma unit_quarter_draws: "unit_draws quarter_draws"
  by (simp add: unit_draws_def quarter_draws_def)

theorem damaged_fraction_monotone_in_magnitude_witness:
  "scenario_magnitude ''orta'' = Some 6.5 \<and> scenario_magnitude ''siddetli'' = Some 7.2
   \<and> (6.5::real) < 7.2 \<and> list_all unit_draws [sample_draws, quarter_draws]
   \<and> mean_fraction ''orta'' sample_page [sample_draws, quarter_draws] = 3 / 4
   \<and> mean_fraction ''siddetli'' sample_page [sample_draws, quarter_draws] = 1
   \<and> mean_fraction ''orta'' sample_page [sample_draws, quarter_draws]
       \<le> mean_fraction ''siddetli'' sample_page [sample_draws, quarter_draws]"
proof -
  have m: "scenario_magnitude ''orta'' = Some 6.5" "scenario_magnitude ''siddetli'' = Some 7.2"
    by (simp_all add: scenario_magnitude_def)
  have lt: "(6.5::real) < 7.2" by simp
  have u: "list_all unit_draws [sample_draws, quarter_draws]"
    by (simp add: unit_sample_draws unit_quarter_draws)
  have v1: "mean_fraction ''orta'' sample_page [sample_draws, quarter_draws] = 3 / 4"
    by (simp add: mean_fraction_def scenario_fraction_def damaged_fraction_def damaged_count_def
        applyDemoScenario_def sample_page_def sample_draws_def quarter_draws_def damageRate_def)
  have v2: "mean_fraction ''siddetli'' sample_page [sample_draws, quarter_draws] = 1"
    by (simp add: mean_fraction_def scenario_fraction_def damaged_fraction_def damaged_count_def
        applyDemoScenario_def sample_page_def sample_draws_def quarter_draws_def damageRate_def)
  show ?thesis
    using damaged_fraction_monotone_in_magnitude [OF m lt u, of sample_page] m lt u v1 v2
    by simp
qed

subsection \<open>The cost of an edge\<close>

text \<open>
  Claim C7. The price \<^verbatim>\<open>step\<close> charges for traversing an edge is the specified cost
  with base speed 50 and the default constants 2.0 and 10.0: the reward of a step is the
  negated cost, to which the urgency bonus is added when the step reaches the goal.
\<close>

theorem step_reward_is_edge_cost:
  assumes "step env action = Inr (env', reward, done)"
  shows "\<exists>len next_node.
           action < length (env_neighbors env (current_node env))
         \<and> next_node = env_neighbors env (current_node env) ! action
         \<and> current_node env' = next_node
         \<and> done = (next_node = env_goal env)
         \<and> env_length env (current_node env, next_node) = Some len
         \<and> reward = - spec_edge_cost len 50
                        (case damage_scores env (current_node env, next_node) of
                           None \<Rightarrow> 0 | Some d \<Rightarrow> d)
                        default_K_slowdown default_K_risk_penalty
                     + (if done then env_urgency env * 50 else 0)"
  using assms
  by (auto simp: step_def Let_def spec_edge_cost_def default_K_slowdown_def
      default_K_risk_penalty_def split: if_splits option.splits)

theorem step_reward_is_edge_cost_witness:
  "step sample_env 0 = Inr (sample_env\<lparr>current_node := 1\<rparr>, - 9, False)
   \<and> spec_edge_cost 100 50 (1 / 2) default_K_slowdown default_K_risk_penalty = 9
   \<and> (\<exists>len. env_length sample_env (0, 1) = Some len
        \<and> (- 9 :: real) = - spec_edge_cost len 50 (1 / 2) default_K_slowdown default_K_risk_penalty)"
proof -
  have s: "step sample_env 0 = Inr (sample_env\<lparr>current_node := 1\<rparr>, - 9, False)"
    by (simp add: step_def sample_env_def Let_def)
  have c: "spec_edge_cost 100 50 (1 / 2) default_K_slowdown default_K_risk_penalty = 9"
    by (simp add: spec_edge_cost_def default_K_slowdown_def default_K_risk_penalty_def)
  show ?thesis
    using step_reward_is_edge_cost [OF s] s c
    by (auto simp: sample_env_def)
qed

subsection \<open>The demo route\<close>

lemma createDemoRoute_point:
  "i < 6 \<Longrightarrow> path_coords (fst (createDemoRoute rng k a b c d)) ! i = demo_point rng k a b c d i"
  by (simp add: createDemoRoute_def)

text \<open>
  Claim C5, as stated, fails for the route the dashboard computes itself. Two consecutive
  calls of \<^verbatim>\<open>createDemoRoute\<close> with the same four coordinates take different draws (the
  second starts at the counter the first one returns) and give different paths.
\<close>

theorem demo_route_not_deterministic:
  "fst (createDemoRoute sample_draws 0 41 29 41.04 29.04)
     \<noteq> fst (createDemoRoute sample_draws (snd (createDemoRoute sample_draws 0 41 29 41.04 29.04))
              41 29 41.04 29.04)"
  by (simp add: createDemoRoute_def demo_point_def sample_draws_def upt_rec [of _ "numeral _"])

lemma createDemoRoute_fields:
  "estimated_time (fst (createDemoRoute rng k a b c d)) = 12.5
   \<and> distance_km (fst (createDemoRoute rng k a b c d)) = 2.3
   \<and> risk_score (fst (createDemoRoute rng k a b c d)) = 0.25
   \<and> route_method (fst (createDemoRoute rng k a b c d)) = ''astar''
   \<and> is_optimal (fst (createDemoRoute rng k a b c d))
   \<and> length (path_coords (fst (createDemoRoute rng k a b c d))) = 6
   \<and> snd (createDemoRoute rng k a b c d) = k + 12"
  by (simp add: createDemoRoute_def)

lemma createDemoRoute_same_draws:
  assumes "\<forall>j<12. rng1 (k1 + j) = rng2 (k2 + j)"
  shows "fst (createDemoRoute rng1 k1 a b c d) = fst (createDemoRoute rng2 k2 a b c d)"
proof -
  have "demo_point rng1 k1 a b c d i = demo_point rng2 k2 a b c d i" if "i < 6" for i
  proof -
    have "2 * i < 12" "2 * i + 1 < 12" using that by simp_all
    then have "rng1 (k1 + 2 * i) = rng2 (k2 + 2 * i)" "rng1 (k1 + (2 * i + 1)) = rng2 (k2 + (2 * i + 1))"
      using assms by blast+
    then show ?thesis by (simp add: demo_point_def add.assoc)
  qed
  then have "map (demo_point rng1 k1 a b c d) [0..<6] = map (demo_point rng2 k2 a b c d) [0..<6]"
    by simp
  then show ?thesis by (simp add: createDemoRoute_def)
qed

text \<open>
  Claim C5, amended. Two calls of \<^verbatim>\<open>createDemoRoute\<close> with identical start and end
  coordinates return the same time (12.5), distance (2.3), risk score (0.25) and method, and
  paths of six points each. The coordinate sequence is a function of the inputs and of the
  twelve draws the call makes: point \<open>i\<close> is the linear interpolation between start and
  end at \<open>i / 5\<close> plus, in each coordinate, the offset \<^verbatim>\<open>(Math.random() - 0.5) * 0.002\<close>
  (in exact arithmetic). So the two paths are identical when the two calls draw the same
  twelve numbers, and only the draws can make them differ.
\<close>

theorem demo_route_determinism:
  assumes "i < 6"
  shows "(let r1 = fst (createDemoRoute rng1 k1 a b c d);
              r2 = fst (createDemoRoute rng2 k2 a b c d)
          in estimated_time r1 = 12.5 \<and> estimated_time r2 = 12.5
             \<and> distance_km r1 = 2.3 \<and> distance_km r2 = 2.3
             \<and> risk_score r1 = 0.25 \<and> risk_score r2 = 0.25
             \<and> route_method r1 = route_method r2 \<and> is_optimal r1 = is_optimal r2
             \<and> length (path_coords r1) = 6 \<and> length (path_coords r2) = 6
             \<and> path_coords r1 ! i =
                 \<lparr>lat = a + (c - a) * (real i / 5) + (rng1 (k1 + 2 * i) - 0.5) * 0.002,
                  lon = b + (d - b) * (real i / 5) + (rng1 (k1 + 2 * i + 1) - 0.5) * 0.002\<rparr>
             \<and> path_coords r2 ! i =
                 \<lparr>lat = a + (c - a) * (real i / 5) + (rng2 (k2 + 2 * i) - 0.5) * 0.002,
                  lon = b + (d - b) * (real i / 5) + (rng2 (k2 + 2 * i + 1) - 0.5) * 0.002\<rparr>
             \<and> snd (createDemoRoute rng1 k1 a b c d) = k1 + 12
             \<and> ((\<forall>j<12. rng1 (k1 + j) = rng2 (k2 + j)) \<longrightarrow> r1 = r2))"
proof -
  have pt: "path_coords (fst (createDemoRoute rng k a b c d)) ! i =
              \<lparr>lat = a + (c - a) * (real i / 5) + (rng (k + 2 * i) - 0.5) * 0.002,
               lon = b + (d - b) * (real i / 5) + (rng (k + 2 * i + 1) - 0.5) * 0.002\<rparr>" for rng k
    by (simp add: createDemoRoute_point [OF assms] demo_point_def Let_def)
  show ?thesis
    unfolding Let_def
    using createDemoRoute_fields [of rng1 k1 a b c d] createDemoRoute_fields [of rng2 k2 a b c d]
          pt [of rng1 k1] pt [of rng2 k2]
          createDemoRoute_same_draws [of rng1 k1 rng2 k2 a b c d]
    by simp
qed

theorem demo_route_determinism_witness:
  "(3::nat) < 6
   \<and> path_coords (fst (createDemoRoute sample_draws 0 41 29 41.04 29.04)) ! 3
       = \<lparr>lat = 41.024, lon = 29.024\<rparr>
   \<and> path_coords (fst (createDemoRoute quarter_draws 0 41 29 41.04 29.04)) ! 3
       = \<lparr>lat = 41.0235, lon = 29.0235\<rparr>
   \<and> fst (createDemoRoute quarter_draws 0 41 29 41.04 29.04)
       = fst (createDemoRoute quarter_draws 5 41 29 41.04 29.04)"
proof -
  have three: "(3::nat) < 6" by simp
  have same: "\<forall>j<12. quarter_draws (0 + j) = quarter_draws (5 + j)"
    by (simp add: quarter_draws_def)
  have a: "path_coords (fst (createDemoRoute sample_draws 0 41 29 41.04 29.04)) ! 3
             = \<lparr>lat = 41.024, lon = 29.024\<rparr>"
       "path_coords (fst (createDemoRoute quarter_draws 0 41 29 41.04 29.04)) ! 3
             = \<lparr>lat = 41.0235, lon = 29.0235\<rparr>"
    using demo_route_determinism [OF three, of sample_draws 0 41 29 "41.04" "29.04" quarter_draws 0]
    by (simp_all add: Let_def sample_draws_def quarter_draws_def)
  have b: "fst (createDemoRoute quarter_draws 0 41 29 41.04 29.04)
             = fst (createDemoRoute quarter_draws 5 41 29 41.04 29.04)"
    using demo_route_determinism [OF three, of quarter_draws 0 41 29 "41.04" "29.04" quarter_draws 5] same
    by (simp add: Let_def)
  show ?thesis using three a b by simp
qed

subsection \<open>Keys of the damage map\<close>







lemma damage_map_loop_total:
  assumes "\<forall>e \<in> set es. damageMap_get m (edge_key num_str e) \<noteq> Inherited"
  shows "\<exists>r. damage_map_loop num_str m rng k es = Inr r"
  using assms
proof (induction es arbitrary: k)
  case Nil
  show ?case by simp
next
  case (Cons e es)
  have a: "\<exists>r. damage_map_loop num_str m rng k es = Inr r"
          "\<exists>r. damage_map_loop num_str m rng (k + 1) es = Inr r"
    using Cons.IH Cons.prems by simp_all
  show ?case
    using a Cons.prems
    by (cases "damageMap_get m (edge_key num_str e)") auto
qed










subsection \<open>Damage scores after the server's damage map\<close>








subsection \<open>Requesting a route\<close>

lemma split_abc: "split_on CHR '','' ''abc'' = [''abc'']"
  by simp

lemma parseFloat_abc: "parseFloat (trim ''abc'') = NaN"
  by (simp add: parseFloat_def trim_def is_ws_def str_decimal_def is_digit_def Let_def)

lemma parse_point_abc: "parse_point ''abc'' = \<lparr>p_lat = Some NaN, p_lon = None\<rparr>"
  by (simp add: parse_point_def split_abc parseFloat_abc del: split_on.simps)

lemma parse_point_numbers:
  "parse_point ''41.02, 29.5'' = \<lparr>p_lat = Some (Num (4102 / 100)), p_lon = Some (Num (295 / 10))\<rparr>"
  by code_simp

lemma calculateRoute_sent:
  "(request_sent (fst (calculateRoute server rng k startInput endInput)) \<noteq> None)
     = (startInput \<noteq> [] \<and> endInput \<noteq> [])"
  by (auto simp: calculateRoute_def Let_def split: option.splits prod.splits)

lemma calculateRoute_request:
  "startInput \<noteq> [] \<Longrightarrow> endInput \<noteq> [] \<Longrightarrow>
   request_sent (fst (calculateRoute server rng k startInput endInput)) =
     Some \<lparr>req_start = parse_point startInput, req_end = parse_point endInput,
           vehicle_type = ''ambulance'', urgency = 0.8, req_method = ''astar''\<rparr>"
  by (auto simp: calculateRoute_def Let_def split: option.splits prod.splits)

text \<open>
  Claim C10. \<^verbatim>\<open>calculateRoute\<close> sends a route request exactly when both input strings
  are non-empty. Nothing checks that the inputs are numbers: for the start input
  \<^verbatim>\<open>abc\<close> the request is sent all the same, with \<^verbatim>\<open>NaN\<close> as start latitude (and no
  start longitude), whatever the server answers.
\<close>

theorem calculateRoute_no_numeric_validation:
  "((request_sent (fst (calculateRoute server rng k startInput endInput)) \<noteq> None)
      = (startInput \<noteq> [] \<and> endInput \<noteq> []))
   \<and> ((fst (calculateRoute server rng k startInput endInput) = Rejected)
      = (startInput = [] \<or> endInput = []))
   \<and> request_sent (fst (calculateRoute server rng k ''abc'' ''41.02, 29.5'')) =
       Some \<lparr>req_start = \<lparr>p_lat = Some NaN, p_lon = None\<rparr>,
             req_end = \<lparr>p_lat = Some (Num 41.02), p_lon = Some (Num 29.5)\<rparr>,
             vehicle_type = ''ambulance'', urgency = 0.8, req_method = ''astar''\<rparr>"
proof -
  have r: "(fst (calculateRoute server rng k startInput endInput) = Rejected)
             = (startInput = [] \<or> endInput = [])"
    by (auto simp: calculateRoute_def Let_def split: option.splits prod.splits)
  have c: "request_sent (fst (calculateRoute server rng k ''abc'' ''41.02, 29.5'')) =
       Some \<lparr>req_start = \<lparr>p_lat = Some NaN, p_lon = None\<rparr>,
             req_end = \<lparr>p_lat = Some (Num 41.02), p_lon = Some (Num 29.5)\<rparr>,
             vehicle_type = ''ambulance'', urgency = 0.8, req_method = ''astar''\<rparr>"
    by (simp add: calculateRoute_request parse_point_abc parse_point_numbers)
  show ?thesis
    using calculateRoute_sent [of server rng k startInput endInput] r c by blast
qed

subsection \<open>Routes and blocked edges\<close>

lemma relax_within:
  assumes "\<forall>v l. best v = Some l \<longrightarrow> set (l_path l) \<subseteq> E"
      and "set (l_path l0) \<subseteq> E" and "e \<in> E"
  shows "\<forall>v l. relax cfg l0 e best v = Some l \<longrightarrow> set (l_path l) \<subseteq> E"
  using assms by (auto simp: relax_def Let_def split: option.splits if_splits)

lemma fold_relax_within:
  assumes "\<forall>v l. best v = Some l \<longrightarrow> set (l_path l) \<subseteq> E"
      and "set (l_path l0) \<subseteq> E" and "set xs \<subseteq> E"
  shows "\<forall>v l. fold (relax cfg l0) xs best v = Some l \<longrightarrow> set (l_path l) \<subseteq> E"
  using assms
proof (induction xs arbitrary: best)
  case Nil
  then show ?case by simp
next
  case (Cons x xs)
  have "\<forall>v l. relax cfg l0 x best v = Some l \<longrightarrow> set (l_path l) \<subseteq> E"
    using Cons.prems by (intro relax_within) auto
  then show ?case
    using Cons.IH [of "relax cfg l0 x best"] Cons.prems by simp
qed

lemma relax_all_within:
  assumes "\<forall>v l. best v = Some l \<longrightarrow> set (l_path l) \<subseteq> set es"
  shows "\<forall>v l. relax_all cfg es rest u best v = Some l \<longrightarrow> set (l_path l) \<subseteq> set es"
proof (cases "best u")
  case None
  then show ?thesis using assms by (simp add: relax_all_def)
next
  case (Some l0)
  have "set (l_path l0) \<subseteq> set es" using assms Some by blast
  then show ?thesis
    using fold_relax_within [OF assms, of l0 "filter (\<lambda>e. src e = u \<and> dst e \<in> set rest) es" cfg] Some
    by (simp add: relax_all_def)
qed

lemma search_within:
  assumes "\<forall>v l. best v = Some l \<longrightarrow> set (l_path l) \<subseteq> set es"
      and "search cfg es goal best todo = Some l"
  shows "set (l_path l) \<subseteq> set es"
  using assms
proof (induction cfg es goal best todo rule: search.induct)
  case (1 cfg es goal best todo)
  show ?case
  proof (cases "pick_min best todo")
    case None
    then show ?thesis using "1.prems"(2) by (simp add: search.simps)
  next
    case (Some u)
    show ?thesis
    proof (cases "u = goal")
      case True
      then have "best u = Some l"
        using "1.prems"(2) Some by (simp add: search.simps)
      then show ?thesis using "1.prems"(1) by blast
    next
      case False
      have rec: "search cfg es goal (relax_all cfg es (remove1 u todo) u best) (remove1 u todo) = Some l"
        using "1.prems"(2) Some False by (simp add: search.simps)
      show ?thesis
        using "1.IH" [OF Some False relax_all_within [OF "1.prems"(1)] rec] .
    qed
  qed
qed

text \<open>
  Claim C1. Every edge of a route returned by \<^verbatim>\<open>find_route\<close> is an edge of the graph
  whose damage score is below the critical threshold: edges at or above the threshold are
  removed before the search starts.
\<close>

theorem find_route_avoids_blocked:
  assumes "find_route cfg g a b urg = Inr r"
  shows "\<forall>e \<in> set (route_edges r).
           e \<in> set (edges g) \<and> \<not> blocked cfg e \<and> damage_score e < critical_threshold cfg"
proof -
  obtain s t l where
    l: "search cfg (passable_edges cfg g) t [s \<mapsto> \<lparr>l_cost = 0, l_path = []\<rparr>]
          (remdups (map node_id (nodes g))) = Some l"
    and r: "route_edges r = l_path l"
    using assms by (auto simp: find_route_def split: option.splits)
  have "\<forall>v l'. [s \<mapsto> \<lparr>l_cost = 0, l_path = []\<rparr>] v = Some l'
           \<longrightarrow> set (l_path l') \<subseteq> set (passable_edges cfg g)"
    by (auto split: if_splits)
  then have "set (l_path l) \<subseteq> set (passable_edges cfg g)"
    using l by (rule search_within)
  then show ?thesis
    unfolding r by (auto simp: passable_edges_def blocked_def)
qed

lemma sample_route:
  "find_route sample_config sample_network (0, 0) (2, 0) (1 / 2) =
     Inr \<lparr>route_nodes = [0, 2, 1], route_edges = [edge_out, edge_back],
          route_distance = 200, route_time = 11 / 5, route_risk = 1 / 20\<rparr>"
  by code_simp

theorem find_route_avoids_blocked_witness:
  "find_route sample_config sample_network (0, 0) (2, 0) (1 / 2) =
     Inr \<lparr>route_nodes = [0, 2, 1], route_edges = [edge_out, edge_back],
          route_distance = 200, route_time = 11 / 5, route_risk = 1 / 20\<rparr>
   \<and> blocked sample_config edge_direct
   \<and> \<not> blocked sample_config edge_out \<and> \<not> blocked sample_config edge_back
   \<and> edge_direct \<notin> set [edge_out, edge_back]"
  using find_route_avoids_blocked [OF sample_route] sample_route
  by (simp add: blocked_def sample_config_def edge_direct_def edge_out_def edge_back_def)

text \<open>The edges of a returned route lead from the snapped start to the snapped end.\<close>

lemma chain_snoc: "chain s p u \<Longrightarrow> src e = u \<Longrightarrow> chain s (p @ [e]) (dst e)"
  by (induction p arbitrary: s) auto

lemma relax_chain:
  assumes "\<forall>v l. best v = Some l \<longrightarrow> chain s (l_path l) v"
      and "chain s (l_path l0) (src e)"
  shows "\<forall>v l. relax cfg l0 e best v = Some l \<longrightarrow> chain s (l_path l) v"
  using assms by (auto simp: relax_def Let_def chain_snoc split: option.splits if_splits)

lemma fold_relax_chain:
  assumes "\<forall>v l. best v = Some l \<longrightarrow> chain s (l_path l) v"
      and "chain s (l_path l0) u" and "\<forall>e \<in> set xs. src e = u"
  shows "\<forall>v l. fold (relax cfg l0) xs best v = Some l \<longrightarrow> chain s (l_path l) v"
  using assms
proof (induction xs arbitrary: best)
  case Nil
  then show ?case by simp
next
  case (Cons x xs)
  have "\<forall>v l. relax cfg l0 x best v = Some l \<longrightarrow> chain s (l_path l) v"
    using Cons.prems by (intro relax_chain) auto
  then show ?case
    using Cons.IH [of "relax cfg l0 x best"] Cons.prems by simp
qed

lemma relax_all_chain:
  assumes "\<forall>v l. best v = Some l \<longrightarrow> chain s (l_path l) v"
  shows "\<forall>v l. relax_all cfg es rest u best v = Some l \<longrightarrow> chain s (l_path l) v"
proof (cases "best u")
  case None
  then show ?thesis using assms by (simp add: relax_all_def)
next
  case (Some l0)
  have "chain s (l_path l0) u" using assms Some by blast
  then show ?thesis
    using fold_relax_chain [OF assms, of l0 u "filter (\<lambda>e. src e = u \<and> dst e \<in> set rest) es" cfg] Some
    by (simp add: relax_all_def)
qed

lemma search_chain:
  assumes "\<forall>v l. best v = Some l \<longrightarrow> chain s (l_path l) v"
      and "search cfg es goal best todo = Some l"
  shows "chain s (l_path l) goal"
  using assms
proof (induction cfg es goal best todo rule: search.induct)
  case (1 cfg es goal best todo)
  show ?case
  proof (cases "pick_min best todo")
    case None
    then show ?thesis using "1.prems"(2) by (simp add: search.simps)
  next
    case (Some u)
    show ?thesis
    proof (cases "u = goal")
      case True
      then have "best goal = Some l"
        using "1.prems"(2) Some by (simp add: search.simps)
      then show ?thesis using "1.prems"(1) by blast
    next
      case False
      have rec: "search cfg es goal (relax_all cfg es (remove1 u todo) u best) (remove1 u todo) = Some l"
        using "1.prems"(2) Some False by (simp add: search.simps)
      show ?thesis
        using "1.IH" [OF Some False relax_all_chain [OF "1.prems"(1)] rec] .
    qed
  qed
qed

lemma find_route_connects:
  assumes "find_route cfg g a b urg = Inr r"
  shows "\<exists>s t. snap cfg g a = Some s \<and> snap cfg g b = Some t
               \<and> chain s (route_edges r) t \<and> route_nodes r = s # map dst (route_edges r)"
proof -
  obtain s t l where
    st: "snap cfg g a = Some s" "snap cfg g b = Some t"
    and l: "search cfg (passable_edges cfg g) t [s \<mapsto> \<lparr>l_cost = 0, l_path = []\<rparr>]
          (remdups (map node_id (nodes g))) = Some l"
    and r: "route_edges r = l_path l" "route_nodes r = s # map dst (l_path l)"
    using assms by (auto simp: find_route_def split: option.splits)
  have "\<forall>v l'. [s \<mapsto> \<lparr>l_cost = 0, l_path = []\<rparr>] v = Some l' \<longrightarrow> chain s (l_path l') v"
    by (auto split: if_splits)
  then have "chain s (l_path l) t"
    using l by (rule search_chain)
  with st r show ?thesis by simp
qed

end
